theory Spec2Isabelle
  imports Complex_Main "HOL-Library.Multiset"
begin

section \<open>Bayesian statistics notebook: the conjugate updates of \<open>bayes_intro.py\<close>\<close>

text \<open>
  The notebook is a script: its cells assign module-level variables. Each cell that the
  properties below are about is embedded as a function of the variables it reads, returning
  the variables it assigns. Python integers are \<open>int\<close>. Python and numpy floating-point
  numbers are embedded as \<open>real\<close>: the arithmetic is the exact one, rounding is not part of
  the model. A Python exception is a value \<open>Inl e\<close> of a sum type.
\<close>

datatype py_error = ZeroDivisionError | ValueError | IndexError

subsection \<open>Beta-Binomial model: posterior parameters\<close>

text \<open>
  Lines 146--148, the plot of the posterior: for \<open>N\<close> trials with \<open>y\<close> heads the density is
  evaluated at \<open>dist.pdf(x, a_prior + y, b_prior + N - y)\<close>. Python reads
  \<open>b_prior + N - y\<close> as \<open>(b_prior + N) - y\<close>.
\<close>

definition p_theta_given_y_params :: "int \<Rightarrow> int \<Rightarrow> int \<Rightarrow> int \<Rightarrow> int \<times> int" where
  "p_theta_given_y_params a_prior b_prior N y = (a_prior + y, (b_prior + N) - y)"

text \<open>
  Lines 177--179, the credible-interval cell:
  \<^verbatim>\<open>N = ntrials; N1 = sum(data); N0 = N-N1; # Sufficient statistics\<close>
  \<^verbatim>\<open>apost = aprior + N1; bpost = bprior + N0 # posterior\<close>
  \<open>data\<close> is the array of the \<open>ntrials\<close> Bernoulli outcomes (0 or 1) drawn on line 175;
  the priors \<open>aprior\<close>, \<open>bprior\<close> are the literals 1 and 1 in the notebook and parameters here.
\<close>

definition sufficient_statistics :: "int \<Rightarrow> int list \<Rightarrow> int \<times> int \<times> int" where
  "sufficient_statistics ntrials data =
     (let N = ntrials; N1 = sum_list data; N0 = N - N1 in (N, N1, N0))"

definition beta_posterior :: "int \<Rightarrow> int \<Rightarrow> int \<Rightarrow> int list \<Rightarrow> int \<times> int" where
  "beta_posterior aprior bprior ntrials data =
     (case sufficient_statistics ntrials data of
        (N, N1, N0) \<Rightarrow> (let apost = aprior + N1; bpost = bprior + N0 in (apost, bpost)))"

text \<open>An array of Bernoulli outcomes: every entry is 0 or 1.\<close>

definition bernoulli_data :: "int list \<Rightarrow> bool" where
  "bernoulli_data data = list_all (\<lambda>y. y = 0 \<or> y = 1) data"

subsection \<open>Gaussian model with known variance: Bayes rule\<close>

text \<open>
  Python's true division \<open>a / b\<close> on floats raises \<open>ZeroDivisionError\<close> when \<open>b\<close> is zero.
\<close>

definition py_truediv :: "real \<Rightarrow> real \<Rightarrow> py_error + real" where
  "py_truediv a b = (if b = 0 then Inl ZeroDivisionError else Inr (a / b))"

text \<open>
  Line 335, \<open>xbar = np.mean(x)\<close>: the arithmetic mean. On an empty array numpy returns
  \<open>nan\<close> (with a warning, no exception); \<open>nan\<close> is \<open>None\<close> here.
\<close>

definition np_mean :: "real list \<Rightarrow> real option" where
  "np_mean x = (if x = [] then None else Some (sum_list x / real (length x)))"

text \<open>
  Line 334: \<^verbatim>\<open>Sigma_post = 1/( 1/Sigma_prior + N/Sigma_x )\<close>.
  The two inner divisions are evaluated left to right, then the outer one.
\<close>

definition Sigma_post :: "real \<Rightarrow> nat \<Rightarrow> real \<Rightarrow> py_error + real" where
  "Sigma_post Sigma_prior N Sigma_x =
     (case py_truediv 1 Sigma_prior of
        Inl e \<Rightarrow> Inl e
      | Inr prec_prior \<Rightarrow>
          (case py_truediv (real N) Sigma_x of
             Inl e \<Rightarrow> Inl e
           | Inr prec_lik \<Rightarrow> py_truediv 1 (prec_prior + prec_lik)))"

text \<open>
  Line 336: \<^verbatim>\<open>mu_post = Sigma_post * (1/Sigma_x * N * xbar + 1/Sigma_prior * mu_prior)\<close>.
  Python reads \<open>1/Sigma_x * N * xbar\<close> as \<open>((1/Sigma_x) * N) * xbar\<close>. A \<open>nan\<close> mean
  makes the result \<open>nan\<close>.
\<close>

definition mu_post :: "real \<Rightarrow> real \<Rightarrow> nat \<Rightarrow> real \<Rightarrow> real option \<Rightarrow> real \<Rightarrow> py_error + real option" where
  "mu_post Sigma_post_v Sigma_x N Sigma_prior xbar mu_prior =
     (case py_truediv 1 Sigma_x of
        Inl e \<Rightarrow> Inl e
      | Inr inv_x \<Rightarrow>
          (case py_truediv 1 Sigma_prior of
             Inl e \<Rightarrow> Inl e
           | Inr inv_prior \<Rightarrow>
               Inr (map_option
                      (\<lambda>xb. Sigma_post_v * ((inv_x * real N) * xb + inv_prior * mu_prior))
                      xbar)))"

text \<open>
  Lines 320--336 as one function of the prior \<open>(mu_prior, Sigma_prior)\<close>, the observation
  variance \<open>Sigma_x\<close> and the observations \<open>x\<close>. The notebook sets \<open>N = 100\<close> and draws
  \<open>x = np.random.randn(100)\<close>, so \<open>N\<close> is the number of observations. It returns the pair
  \<open>(mu_post, Sigma_post)\<close> that line 337 prints.
\<close>

definition bayes_rule_gaussians ::
    "real \<Rightarrow> real \<Rightarrow> real \<Rightarrow> real list \<Rightarrow> py_error + (real option \<times> real)" where
  "bayes_rule_gaussians mu_prior Sigma_prior Sigma_x x =
     (let N = length x in
      case Sigma_post Sigma_prior N Sigma_x of
        Inl e \<Rightarrow> Inl e
      | Inr Sp \<Rightarrow>
          (let xbar = np_mean x in
           case mu_post Sp Sigma_x N Sigma_prior xbar mu_prior of
             Inl e \<Rightarrow> Inl e
           | Inr m \<Rightarrow> Inr (m, Sp)))"

subsection \<open>Credible intervals of the Beta posterior\<close>

text \<open>
  The cell of lines 170--197 calls scipy and numpy, which are not part of the notebook.
  The library functions it calls are parameters of the embedding:
  \<^item> \<open>ppf q a b\<close> is \<open>beta.ppf(q, a, b)\<close>, the percent point function (inverse of the
    cumulative distribution function) of \<open>Beta(a, b)\<close>;
  \<^item> \<open>percentile xs q\<close> is \<open>np.percentile(xs, q)\<close> for one percentage \<open>q\<close>;
  \<^item> the random number generator is a record of functions on a generator state \<open>'g\<close>,
    the state numpy keeps in \<open>np.random\<close>: \<open>np.random.seed(s)\<close> replaces the state,
    each \<open>rvs\<close> call reads the state and leaves a new one.
\<close>

type_synonym beta_ppf = "real \<Rightarrow> int \<Rightarrow> int \<Rightarrow> real"

record 'g np_random =
  random_seed :: "int \<Rightarrow> 'g"
  bernoulli_rvs :: "real \<Rightarrow> nat \<Rightarrow> 'g \<Rightarrow> int list \<times> 'g"
  beta_rvs :: "int \<Rightarrow> int \<Rightarrow> nat \<Rightarrow> 'g \<Rightarrow> real list \<times> 'g"

text \<open>
  \<open>beta.interval(confidence, a, b)\<close> is scipy's, not the notebook's. It is embedded after
  scipy's documentation of \<open>rv_continuous.interval\<close> (``confidence interval with equal areas
  around the median''): the end points are the percent points at \<open>(1 - confidence)/2\<close> and
  \<open>(1 + confidence)/2\<close>, and a confidence outside \<open>[0, 1]\<close> raises \<open>ValueError\<close>.
\<close>

definition beta_interval :: "beta_ppf \<Rightarrow> real \<Rightarrow> int \<Rightarrow> int \<Rightarrow> py_error + real \<times> real" where
  "beta_interval ppf confidence a b =
     (if confidence > 1 \<or> confidence < 0 then Inl ValueError
      else (let q1 = (1 - confidence) / 2; q2 = (1 + confidence) / 2
            in Inr (ppf q1 a b, ppf q2 a b)))"

text \<open>Line 183: \<^verbatim>\<open>CI1 = beta.interval(1-alpha, apost, bpost)\<close>.\<close>

definition CI1 :: "beta_ppf \<Rightarrow> real \<Rightarrow> int \<Rightarrow> int \<Rightarrow> py_error + real \<times> real" where
  "CI1 ppf alpha apost bpost = beta_interval ppf (1 - alpha) apost bpost"

text \<open>
  Lines 187--189:
  \<^verbatim>\<open>l  = beta.ppf(alpha/2, apost, bpost)\<close>
  \<^verbatim>\<open>u  = beta.ppf(1-alpha/2, apost, bpost)\<close>
  \<^verbatim>\<open>CI2 = (l,u)\<close>
\<close>

definition CI2 :: "beta_ppf \<Rightarrow> real \<Rightarrow> int \<Rightarrow> int \<Rightarrow> real \<times> real" where
  "CI2 ppf alpha apost bpost =
     (let l = ppf (alpha / 2) apost bpost;
          u = ppf (1 - alpha / 2) apost bpost
      in (l, u))"

text \<open>
  Lines 193--195, Monte Carlo sampling from the generator state \<open>g\<close>:
  \<^verbatim>\<open>samples = beta.rvs(apost, bpost, size=10000)\<close>
  \<^verbatim>\<open>samples = np.sort(samples)\<close>
  \<^verbatim>\<open>CI3 = np.percentile(samples, 100*np.array([alpha/2, 1-alpha/2]))\<close>
  The sample size 10000 is the parameter \<open>nsamples\<close>. The result is the interval, the sorted
  samples (later cells read them) and the generator state left behind.
\<close>

definition CI3 ::
    "'g np_random \<Rightarrow> (real list \<Rightarrow> real \<Rightarrow> real) \<Rightarrow> real \<Rightarrow> int \<Rightarrow> int \<Rightarrow> nat \<Rightarrow> 'g
       \<Rightarrow> (real \<times> real) \<times> real list \<times> 'g" where
  "CI3 rng percentile alpha apost bpost nsamples g =
     (case beta_rvs rng apost bpost nsamples g of
        (drawn, g') \<Rightarrow>
          (let samples = sort drawn
           in ((percentile samples (100 * (alpha / 2)),
                percentile samples (100 * (1 - alpha / 2))), samples, g')))"

text \<open>
  The whole cell, lines 172--196, started in the generator state \<open>g0\<close> that earlier cells
  left: line 172 seeds the generator, line 175 draws the data, lines 177--179 compute the
  posterior, then the three intervals follow. The notebook's literals (seed 42,
  \<open>theta_real = 0.35\<close>, \<open>ntrials = 100\<close>, priors 1 and 1, \<open>alpha = 0.05\<close>, 10000 samples) are
  parameters. An exception of line 183 ends the cell.
\<close>

record 'g credible_cell =
  cell_apost :: int
  cell_bpost :: int
  cell_CI1 :: "real \<times> real"
  cell_CI2 :: "real \<times> real"
  cell_CI3 :: "real \<times> real"
  cell_samples :: "real list"
  cell_rng :: 'g

definition credible_interval_cell ::
    "'g np_random \<Rightarrow> beta_ppf \<Rightarrow> (real list \<Rightarrow> real \<Rightarrow> real)
       \<Rightarrow> int \<Rightarrow> real \<Rightarrow> nat \<Rightarrow> int \<Rightarrow> int \<Rightarrow> real \<Rightarrow> nat \<Rightarrow> 'g
       \<Rightarrow> py_error + 'g credible_cell" where
  "credible_interval_cell rng ppf percentile seed theta_real ntrials aprior bprior alpha nsamples g0 =
     (let g1 = random_seed rng seed in
      case bernoulli_rvs rng theta_real ntrials g1 of
        (data, g2) \<Rightarrow>
          (case beta_posterior aprior bprior (int ntrials) data of
             (apost, bpost) \<Rightarrow>
               (case CI1 ppf alpha apost bpost of
                  Inl e \<Rightarrow> Inl e
                | Inr ci1 \<Rightarrow>
                    (case CI3 rng percentile alpha apost bpost nsamples g2 of
                       (ci3, samples, g3) \<Rightarrow>
                         Inr \<lparr> cell_apost = apost, cell_bpost = bpost,
                               cell_CI1 = ci1, cell_CI2 = CI2 ppf alpha apost bpost,
                               cell_CI3 = ci3, cell_samples = samples, cell_rng = g3 \<rparr>))))"

subsection \<open>Point estimates\<close>

text \<open>
  Line 229, \<open>grid = np.linspace(0, 1, 200)\<close>: \<open>num\<close> evenly spaced points from \<open>start\<close> to
  \<open>stop\<close>, both included, the \<open>i\<close>-th being \<open>start + i * step\<close> with
  \<open>step = (stop - start) / (num - 1)\<close>. For \<open>num = 1\<close> numpy returns \<open>[start]\<close>, and so does
  the definition (\<open>0 * step = 0\<close>).
\<close>

definition np_linspace :: "real \<Rightarrow> real \<Rightarrow> nat \<Rightarrow> real list" where
  "np_linspace start stop num =
     map (\<lambda>i. start + real i * ((stop - start) / real (num - 1))) [0..<num]"

text \<open>
  Lines 230--232, with \<open>\<theta>_pos = samples\<close> the posterior samples of the cell above:
  \<^verbatim>\<open>lossf_a = [np.mean(abs(i - \<theta>_pos)) for i in grid]\<close>
  \<^verbatim>\<open>lossf_b = [np.mean((i - \<theta>_pos)**2) for i in grid]\<close>
  Each entry is a mean over the samples, \<open>nan\<close> (\<open>None\<close>) when there is no sample.
\<close>

definition lossf_a :: "real list \<Rightarrow> real list \<Rightarrow> real option list" where
  "lossf_a grid theta_pos = map (\<lambda>i. np_mean (map (\<lambda>t. \<bar>i - t\<bar>) theta_pos)) grid"

definition lossf_b :: "real list \<Rightarrow> real list \<Rightarrow> real option list" where
  "lossf_b grid theta_pos = map (\<lambda>i. np_mean (map (\<lambda>t. (i - t)\<^sup>2) theta_pos)) grid"

text \<open>
  Line 235, \<open>mini = np.argmin(lossf)\<close>: the index of the first occurrence of the minimum.
  A \<open>nan\<close> counts as the minimum; an empty sequence raises \<open>ValueError\<close>. The scan keeps the
  index and the value of the best entry so far and replaces them only by a strictly better
  entry, so the first of several equal minima is kept.
\<close>

fun nan_less :: "real option \<Rightarrow> real option \<Rightarrow> bool" where
  "nan_less v None = False"
| "nan_less None (Some b) = True"
| "nan_less (Some v) (Some b) = (v < b)"

fun argmin_scan :: "nat \<Rightarrow> real option \<Rightarrow> nat \<Rightarrow> real option list \<Rightarrow> nat" where
  "argmin_scan mini best i [] = mini"
| "argmin_scan mini best i (v # vs) =
     (if nan_less v best then argmin_scan i v (Suc i) vs
      else argmin_scan mini best (Suc i) vs)"

definition np_argmin :: "real option list \<Rightarrow> py_error + nat" where
  "np_argmin lossf = (case lossf of [] \<Rightarrow> Inl ValueError | v # vs \<Rightarrow> Inr (argmin_scan 0 v 1 vs))"

text \<open>
  Lines 235--238: the point estimate that the plot marks and annotates is \<open>grid[mini]\<close>.
  Indexing past the end of the grid raises \<open>IndexError\<close>.
\<close>

definition point_estimate :: "real option list \<Rightarrow> real list \<Rightarrow> py_error + real" where
  "point_estimate lossf grid =
     (case np_argmin lossf of
        Inl e \<Rightarrow> Inl e
      | Inr mini \<Rightarrow> (if mini < length grid then Inr (grid ! mini) else Inl IndexError))"

text \<open>
  The notebook computes neither the mean nor the median of the samples in this cell; the
  markdown above it names them as what the two minimisers estimate. The mean is
  \<open>np_mean\<close>. The median the L1 estimate is compared with is the lower median of the
  samples, the element at position \<open>(n - 1) div 2\<close> of the sorted samples; for an odd number
  of samples it is the median.
\<close>

definition lower_median :: "real list \<Rightarrow> real" where
  "lower_median theta_pos = sort theta_pos ! ((length theta_pos - 1) div 2)"

text \<open>
  What line 235 is expected to return for a list of losses without \<open>nan\<close>: an index of a
  smallest entry such that every earlier entry is strictly larger.
\<close>

definition first_min_index :: "real list \<Rightarrow> nat \<Rightarrow> bool" where
  "first_min_index xs m =
     (m < length xs \<and> (\<forall>j<length xs. xs ! m \<le> xs ! j) \<and> (\<forall>j<m. xs ! m < xs ! j))"

section \<open>Properties\<close>

subsection \<open>Beta-Binomial posterior\<close>

lemma sum_list_bernoulli_bounds:
  "bernoulli_data data \<Longrightarrow> 0 \<le> sum_list data \<and> sum_list data \<le> int (length data)"
  unfolding bernoulli_data_def by (induction data) auto

text \<open>
  Claim C1. For a prior \<open>Beta(alpha, beta)\<close> with positive parameters and \<open>N\<close> trials with
  \<open>k\<close> successes, \<open>0 \<le> k \<le> N\<close>, the posterior parameters are exactly \<open>alpha + k\<close> and
  \<open>beta + N - k\<close>: on the plotting path (lines 146--148) for every such \<open>N\<close> and \<open>k\<close>, and
  in the credible-interval cell (lines 177--179) for every array of \<open>N\<close> Bernoulli outcomes
  that sum to \<open>k\<close>. Both parameters stay positive and do not fall below the prior's.
\<close>

theorem beta_posterior_exact:
  assumes "0 < alpha" and "0 < beta" and "0 \<le> k" and "k \<le> N"
  shows "p_theta_given_y_params alpha beta N k = (alpha + k, beta + N - k)
         \<and> (sum_list data = k \<longrightarrow>
              beta_posterior alpha beta N data = (alpha + k, beta + N - k))
         \<and> alpha \<le> alpha + k \<and> beta \<le> beta + N - k
         \<and> 0 < alpha + k \<and> 0 < beta + N - k"
  using assms
  by (simp add: p_theta_given_y_params_def beta_posterior_def sufficient_statistics_def
        Let_def)

theorem beta_posterior_exact_witness:
  "(0::int) < 1 \<and> (0::int) \<le> 3 \<and> (3::int) \<le> 5
   \<and> p_theta_given_y_params 1 1 5 3 = (4, 3)
   \<and> beta_posterior 1 1 5 [0, 1, 1, 0, 1] = (4, 3)"
  using beta_posterior_exact [of 1 1 3 5 "[0, 1, 1, 0, 1]"]
  by simp

text \<open>
  In the notebook \<open>ntrials\<close> is the length of \<open>data\<close> and \<open>data\<close> holds Bernoulli outcomes,
  so the side conditions \<open>0 \<le> k \<le> N\<close> of the claim hold by construction.
\<close>

lemma beta_posterior_bernoulli:
  assumes "bernoulli_data data"
  shows "beta_posterior aprior bprior (int (length data)) data
           = (aprior + sum_list data, bprior + int (length data) - sum_list data)"
    and "0 \<le> sum_list data" and "sum_list data \<le> int (length data)"
  using sum_list_bernoulli_bounds [OF assms]
  by (simp_all add: beta_posterior_def sufficient_statistics_def Let_def)

subsection \<open>Gaussian posterior\<close>

lemma Sigma_post_cases:
  "Sigma_post Sigma_prior N Sigma_x =
     (if Sigma_prior = 0 \<or> Sigma_x = 0 \<or> 1 / Sigma_prior + real N / Sigma_x = 0
      then Inl ZeroDivisionError
      else Inr (1 / (1 / Sigma_prior + real N / Sigma_x)))"
  by (simp add: Sigma_post_def py_truediv_def)

lemma precision_pos:
  assumes "0 < Sigma_prior" and "0 < Sigma_x"
  shows "0 < 1 / Sigma_prior + real N / Sigma_x"
proof -
  have "0 < 1 / Sigma_prior" using assms(1) by simp
  moreover have "0 \<le> real N / Sigma_x" using assms(2) by simp
  ultimately show ?thesis by linarith
qed

lemma Sigma_post_valid:
  assumes "0 < Sigma_prior" and "0 < Sigma_x"
  shows "Sigma_post Sigma_prior N Sigma_x = Inr (1 / (1 / Sigma_prior + real N / Sigma_x))"
  using assms precision_pos [OF assms, of N] by (simp add: Sigma_post_cases)

text \<open>
  Claim C2. For a prior variance and an observation variance that are positive and \<open>n\<close>
  observations \<open>x\<close>, the cell returns the posterior variance
  \<open>1 / (1/Sigma_prior + n/Sigma_x)\<close> and the posterior mean
  \<open>posteriorVariance * (n * sampleMean / Sigma_x + mu_prior / Sigma_prior)\<close>, where the
  sample mean is \<open>np.mean(x)\<close>; no division fails. (With no observation the sample mean
  and with it the posterior mean are \<open>nan\<close>, the variance is as stated.)
\<close>

theorem gaussian_posterior_formula:
  assumes "0 < Sigma_prior" and "0 < Sigma_x"
  shows "bayes_rule_gaussians mu_prior Sigma_prior Sigma_x x
           = Inr (map_option
                    (\<lambda>sampleMean.
                        (1 / (1 / Sigma_prior + real (length x) / Sigma_x))
                          * (real (length x) * sampleMean / Sigma_x + mu_prior / Sigma_prior))
                    (np_mean x),
                  1 / (1 / Sigma_prior + real (length x) / Sigma_x))"
proof -
  have mp: "mu_post v Sigma_x (length x) Sigma_prior xb mu_prior
              = Inr (map_option
                      (\<lambda>sampleMean.
                          v * (real (length x) * sampleMean / Sigma_x + mu_prior / Sigma_prior))
                      xb)" for v xb
    using assms by (simp add: mu_post_def py_truediv_def)
  show ?thesis
    by (simp add: Sigma_post_valid [OF assms] mp bayes_rule_gaussians_def Let_def)
qed

theorem gaussian_posterior_formula_witness:
  "bayes_rule_gaussians 0 1 1 [1, 3] = Inr (Some (4 / 3), 1 / 3)"
proof -
  have pos: "(0::real) < 1" by simp
  from gaussian_posterior_formula [of 1 1 0 "[1, 3]", OF pos pos]
  show ?thesis by (simp add: np_mean_def)
qed



subsection \<open>Credible intervals\<close>

lemma CI2_eq: "CI2 ppf alpha a b = (ppf (alpha / 2) a b, ppf (1 - alpha / 2) a b)"
  by (simp add: CI2_def Let_def)

text \<open>
  Claim C3. The notebook's variable \<open>alpha\<close> is one minus the level. For every posterior
  \<open>Beta(apost, bpost)\<close> and every level in \<open>(0, 1)\<close> the interval of lines 187--189 has the
  percent point at \<open>(1 - level)/2\<close> as its lower end and the percent point at
  \<open>1 - (1 - level)/2\<close> as its upper end. Whenever \<open>ppf\<close> inverts a cumulative
  distribution function \<open>cdf\<close> on \<open>(0, 1)\<close>, this is the two-sided interval with equal tails:
  the mass below the interval and the mass above it are both \<open>(1 - level)/2\<close>, the mass
  inside is the level.
\<close>

theorem credible_interval_two_sided:
  fixes ppf :: beta_ppf and cdf :: "real \<Rightarrow> real"
  assumes inv: "\<And>q. 0 < q \<Longrightarrow> q < 1 \<Longrightarrow> cdf (ppf q apost bpost) = q"
    and "0 < level" and "level < 1"
  shows "CI2 ppf (1 - level) apost bpost
           = (ppf ((1 - level) / 2) apost bpost, ppf (1 - (1 - level) / 2) apost bpost)
         \<and> cdf (fst (CI2 ppf (1 - level) apost bpost)) = (1 - level) / 2
         \<and> 1 - cdf (snd (CI2 ppf (1 - level) apost bpost)) = (1 - level) / 2
         \<and> cdf (snd (CI2 ppf (1 - level) apost bpost))
             - cdf (fst (CI2 ppf (1 - level) apost bpost)) = level"
proof -
  have lo: "cdf (ppf ((1 - level) / 2) apost bpost) = (1 - level) / 2"
    using assms(2,3) by (intro inv) simp_all
  have hi: "cdf (ppf (1 - (1 - level) / 2) apost bpost) = 1 - (1 - level) / 2"
    using assms(2,3) by (intro inv) simp_all
  show ?thesis
    unfolding CI2_eq fst_conv snd_conv lo hi by (simp add: field_simps)
qed

text \<open>
  The witness is the notebook's prior \<open>Beta(1, 1)\<close>, the uniform distribution, whose
  cumulative distribution function and percent point function on \<open>(0, 1)\<close> are the identity,
  at the notebook's level 0.95.
\<close>

theorem credible_interval_two_sided_witness:
  "CI2 (\<lambda>q a b. q) (1 - 19 / 20) 1 1 = (1 / 40, 39 / 40)
   \<and> snd (CI2 (\<lambda>q a b. q) (1 - 19 / 20) 1 1) - fst (CI2 (\<lambda>q a b. q) (1 - 19 / 20) 1 1)
       = 19 / 20"
proof -
  have inv: "(\<lambda>x. x) ((\<lambda>q a b. q) q (1::int) (1::int)) = q" for q :: real
    by simp
  have lv: "(0::real) < 19 / 20" "(19 / 20 :: real) < 1"
    by simp_all
  from credible_interval_two_sided [of "\<lambda>x. x" "\<lambda>q a b. q" 1 1 "19 / 20", OF inv lv]
  show ?thesis by (simp add: CI2_eq)
qed

text \<open>
  A percent point function that inverts a nondecreasing function (every cumulative
  distribution function is one) is strictly increasing on \<open>(0, 1)\<close>.
\<close>

lemma ppf_strict_mono:
  fixes ppf :: beta_ppf and cdf :: "real \<Rightarrow> real"
  assumes mono: "\<And>x y. x \<le> y \<Longrightarrow> cdf x \<le> cdf y"
    and inv: "\<And>q. 0 < q \<Longrightarrow> q < 1 \<Longrightarrow> cdf (ppf q a b) = q"
    and "0 < p" and "p < q" and "q < 1"
  shows "ppf p a b < ppf q a b"
proof (rule ccontr)
  assume "\<not> ppf p a b < ppf q a b"
  then have "ppf q a b \<le> ppf p a b" by simp
  then have "cdf (ppf q a b) \<le> cdf (ppf p a b)" by (rule mono)
  moreover have "cdf (ppf q a b) = q" using assms by (intro inv) simp_all
  moreover have "cdf (ppf p a b) = p" using assms by (intro inv) simp_all
  ultimately show False using \<open>p < q\<close> by simp
qed

text \<open>
  Claim C9. The credible interval of lines 187--189 is monotone in the level: for levels
  \<open>0 < level1 < level2 < 1\<close> the interval at \<open>level2\<close> contains the interval at \<open>level1\<close>,
  for every posterior whose percent point function inverts its (nondecreasing) cumulative
  distribution function.
\<close>

theorem credible_interval_monotone:
  fixes ppf :: beta_ppf and cdf :: "real \<Rightarrow> real"
  assumes mono: "\<And>x y. x \<le> y \<Longrightarrow> cdf x \<le> cdf y"
    and inv: "\<And>q. 0 < q \<Longrightarrow> q < 1 \<Longrightarrow> cdf (ppf q apost bpost) = q"
    and "0 < level1" and "level1 < level2" and "level2 < 1"
  shows "fst (CI2 ppf (1 - level2) apost bpost) \<le> fst (CI2 ppf (1 - level1) apost bpost)
         \<and> snd (CI2 ppf (1 - level1) apost bpost) \<le> snd (CI2 ppf (1 - level2) apost bpost)"
proof -
  have "ppf ((1 - level2) / 2) apost bpost < ppf ((1 - level1) / 2) apost bpost"
    by (rule ppf_strict_mono [of cdf]) (use assms in simp_all)
  moreover
  have "ppf (1 - (1 - level1) / 2) apost bpost < ppf (1 - (1 - level2) / 2) apost bpost"
    by (rule ppf_strict_mono [of cdf]) (use assms in simp_all)
  ultimately show ?thesis by (simp add: CI2_eq)
qed

theorem credible_interval_monotone_witness:
  "fst (CI2 (\<lambda>q a b. q) (1 - 19 / 20) 1 1) \<le> fst (CI2 (\<lambda>q a b. q) (1 - 1 / 2) 1 1)
   \<and> snd (CI2 (\<lambda>q a b. q) (1 - 1 / 2) 1 1) \<le> snd (CI2 (\<lambda>q a b. q) (1 - 19 / 20) 1 1)
   \<and> CI2 (\<lambda>q a b. q) (1 - 1 / 2) 1 1 = (1 / 4, 3 / 4)
   \<and> CI2 (\<lambda>q a b. q) (1 - 19 / 20) 1 1 = (1 / 40, 39 / 40)"
proof -
  have mono: "x \<le> y \<Longrightarrow> (\<lambda>x. x) x \<le> (\<lambda>x. x) y" for x y :: real
    by simp
  have inv: "(\<lambda>x. x) ((\<lambda>q a b. q) q (1::int) (1::int)) = q" for q :: real
    by simp
  have lv: "(0::real) < 1 / 2" "(1 / 2 :: real) < 19 / 20" "(19 / 20 :: real) < 1"
    by simp_all
  from credible_interval_monotone
         [of "\<lambda>x. x" "\<lambda>q a b. q" 1 1 "1 / 2" "19 / 20", OF mono inv lv]
  show ?thesis by (simp add: CI2_eq)
qed

subsection \<open>The library interval and the manual interval\<close>

lemma beta_interval_eq:
  assumes "0 \<le> c" and "c \<le> 1"
  shows "beta_interval ppf c a b
           = Inr (ppf ((1 - c) / 2) a b, ppf (1 - (1 - c) / 2) a b)"
proof -
  have q2: "(1 + c) / 2 = 1 - (1 - c) / 2"
    by (simp add: field_simps)
  have ok: "\<not> (c > 1 \<or> c < 0)"
    using assms by simp
  show ?thesis
    unfolding beta_interval_def Let_def q2 using ok by (simp only: if_False)
qed

text \<open>
  Claim C10 says that for some posterior and some level the library interval differs from
  the pair of percent points at \<open>(1 - level)/2\<close> and \<open>1 - (1 - level)/2\<close>. There is no such
  posterior and level: \<open>beta.interval\<close> is the same two-sided interval.
\<close>

theorem library_interval_differs_counterexample:
  "\<not> (\<exists>ppf apost bpost level. 0 < level \<and> level < 1
        \<and> beta_interval ppf level apost bpost
            \<noteq> Inr (ppf ((1 - level) / 2) apost bpost, ppf (1 - (1 - level) / 2) apost bpost))"
proof -
  have "beta_interval ppf level apost bpost
          = Inr (ppf ((1 - level) / 2) apost bpost, ppf (1 - (1 - level) / 2) apost bpost)"
    if "0 < level" and "level < 1" for ppf apost bpost level
    using that by (intro beta_interval_eq) simp_all
  then show ?thesis by blast
qed

text \<open>
  Claim C10, amended. The interval \<open>CI1\<close> of line 183 (the library helper at confidence
  \<open>1 - alpha\<close>) and the interval \<open>CI2\<close> of lines 187--189 (the percent points at \<open>alpha/2\<close>
  and \<open>1 - alpha/2\<close>) are the same two-sided interval for every posterior and every
  \<open>alpha\<close> in \<open>[0, 1]\<close>; outside that range the library helper raises \<open>ValueError\<close>.
\<close>

theorem library_interval_agrees:
  "CI1 ppf alpha apost bpost =
     (if 1 - alpha > 1 \<or> 1 - alpha < 0 then Inl ValueError
      else Inr (CI2 ppf alpha apost bpost))"
proof (cases "1 - alpha > 1 \<or> 1 - alpha < 0")
  case True
  then show ?thesis
    unfolding CI1_def beta_interval_def by (simp only: if_True)
next
  case False
  then have "0 \<le> 1 - alpha" and "1 - alpha \<le> 1"
    by simp_all
  then have "beta_interval ppf (1 - alpha) apost bpost
               = Inr (ppf ((1 - (1 - alpha)) / 2) apost bpost,
                      ppf (1 - (1 - (1 - alpha)) / 2) apost bpost)"
    by (rule beta_interval_eq)
  moreover have "(1 - (1 - alpha)) / 2 = alpha / 2"
    by simp
  ultimately show ?thesis
    unfolding CI1_def CI2_eq using False by (simp only: if_False)
qed

subsection \<open>Monte Carlo interval and the random number generator\<close>

lemma CI3_eq:
  "CI3 rng percentile alpha apost bpost nsamples g =
     ((percentile (sort (fst (beta_rvs rng apost bpost nsamples g))) (100 * (alpha / 2)),
       percentile (sort (fst (beta_rvs rng apost bpost nsamples g))) (100 * (1 - alpha / 2))),
      sort (fst (beta_rvs rng apost bpost nsamples g)),
      snd (beta_rvs rng apost bpost nsamples g))"
  by (simp add: CI3_def Let_def split: prod.splits)

text \<open>
  Claim C7. The cell seeds the generator before it draws, so what it computes depends on
  the seed and not on the generator state \<open>g0\<close> it is started in: two runs with the same
  arguments, whatever states they start in (the second may start in the state the first
  one left), return the same posterior, the same three intervals, the same samples and the
  same final generator state. The Monte Carlo interval is the pair of the empirical
  percentiles of the drawn samples at \<open>100 * (1 - level)/2\<close> and
  \<open>100 * (1 - (1 - level)/2)\<close> percent, where \<open>alpha = 1 - level\<close>.
\<close>

theorem monte_carlo_interval_deterministic:
  "credible_interval_cell rng ppf percentile seed theta_real ntrials aprior bprior
       (1 - level) nsamples g0
     = credible_interval_cell rng ppf percentile seed theta_real ntrials aprior bprior
         (1 - level) nsamples g0'
   \<and> fst (CI3 rng percentile (1 - level) apost bpost nsamples g)
     = (percentile (sort (fst (beta_rvs rng apost bpost nsamples g))) (100 * ((1 - level) / 2)),
        percentile (sort (fst (beta_rvs rng apost bpost nsamples g)))
          (100 * (1 - (1 - level) / 2)))"
  by (simp add: credible_interval_cell_def CI3_eq Let_def)

text \<open>
  The sampling lines 193--195 alone do read the generator state: with a generator that
  counts upwards and a percentile function that takes the first sample, two different
  states give two different intervals. The seeding of line 172 is what makes the cell
  reproducible.
\<close>

lemma CI3_reads_generator_state:
  "fst (CI3 \<lparr> random_seed = (\<lambda>s. nat s),
              bernoulli_rvs = (\<lambda>p n g. (replicate n 0, g + n)),
              beta_rvs = (\<lambda>a b n g. (map (\<lambda>i. real (g + i)) [0..<n], g + n)) \<rparr>
           (\<lambda>xs q. hd xs) (1 / 20) 1 1 2 0)
     \<noteq> fst (CI3 \<lparr> random_seed = (\<lambda>s. nat s),
              bernoulli_rvs = (\<lambda>p n g. (replicate n 0, g + n)),
              beta_rvs = (\<lambda>a b n g. (map (\<lambda>i. real (g + i)) [0..<n], g + n)) \<rparr>
           (\<lambda>xs q. hd xs) (1 / 20) 1 1 2 1)"
  by (simp add: CI3_eq upt_rec)

subsection \<open>Malformed parameters\<close>



subsection \<open>Point estimates\<close>

lemma argmin_scan_first_min:
  assumes "length ps = i" and "mini < i" and "ps ! mini = b"
    and "\<forall>j<i. b \<le> ps ! j" and "\<forall>j<mini. b < ps ! j"
  shows "first_min_index (ps @ vs) (argmin_scan mini (Some b) i (map Some vs))"
  using assms
proof (induction vs arbitrary: ps i mini b)
  case Nil
  then show ?case by (simp add: first_min_index_def)
next
  case (Cons v vs)
  show ?case
  proof (cases "v < b")
    case True
    have "first_min_index ((ps @ [v]) @ vs) (argmin_scan i (Some v) (Suc i) (map Some vs))"
    proof (rule Cons.IH)
      show "length (ps @ [v]) = Suc i" using Cons.prems by simp
      show "i < Suc i" by simp
      show "(ps @ [v]) ! i = v" using Cons.prems by (simp add: nth_append)
      show "\<forall>j<Suc i. v \<le> (ps @ [v]) ! j"
        using Cons.prems True by (auto simp: nth_append less_Suc_eq intro: less_imp_le order_trans)
      show "\<forall>j<i. v < (ps @ [v]) ! j"
        using Cons.prems True by (auto simp: nth_append intro: less_le_trans)
    qed
    then show ?thesis using True by simp
  next
    case False
    have "first_min_index ((ps @ [v]) @ vs) (argmin_scan mini (Some b) (Suc i) (map Some vs))"
    proof (rule Cons.IH)
      show "length (ps @ [v]) = Suc i" using Cons.prems by simp
      show "mini < Suc i" using Cons.prems by simp
      show "(ps @ [v]) ! mini = b" using Cons.prems by (simp add: nth_append)
      show "\<forall>j<Suc i. b \<le> (ps @ [v]) ! j"
        using Cons.prems False by (auto simp: nth_append less_Suc_eq)
      show "\<forall>j<mini. b < (ps @ [v]) ! j"
        using Cons.prems by (auto simp: nth_append)
    qed
    then show ?thesis using False by simp
  qed
qed

lemma np_argmin_first_min:
  assumes "rs \<noteq> []"
  shows "\<exists>m. np_argmin (map Some rs) = Inr m \<and> first_min_index rs m"
proof -
  obtain r rs' where rs: "rs = r # rs'" using assms by (cases rs) auto
  have "first_min_index ([r] @ rs') (argmin_scan 0 (Some r) 1 (map Some rs'))"
    by (rule argmin_scan_first_min) simp_all
  then show ?thesis by (simp add: rs np_argmin_def)
qed

lemma sum_list_sq_dev:
  "sum_list (map (\<lambda>t. (i - t)\<^sup>2) ts)
     = real (length ts) * i\<^sup>2 - 2 * i * sum_list ts + sum_list (map (\<lambda>t. t\<^sup>2) ts)"
  by (induction ts) (simp_all add: algebra_simps power2_eq_square)

lemma mean_sq_dev:
  assumes "ts \<noteq> []"
  shows "sum_list (map (\<lambda>t. (i - t)\<^sup>2) ts) / real (length ts)
           = (i - sum_list ts / real (length ts))\<^sup>2
             + (sum_list (map (\<lambda>t. t\<^sup>2) ts) / real (length ts)
                - (sum_list ts / real (length ts))\<^sup>2)"
proof -
  have n: "real (length ts) \<noteq> 0" using assms by simp
  show ?thesis
    unfolding sum_list_sq_dev using n by (simp add: field_simps power2_eq_square)
qed


text \<open>
  The sum of absolute deviations, moved from \<open>x\<close> to \<open>y \<ge> x\<close>, changes by at most
  \<open>y - x\<close> times the number of samples below \<open>y\<close> minus the number of the others, and by at
  least \<open>y - x\<close> times the number of samples up to \<open>x\<close> minus the number of the others.
\<close>

lemma abs_dev_diff_upper:
  fixes x y :: real
  assumes "x \<le> y"
  shows "sum_list (map (\<lambda>t. \<bar>y - t\<bar>) ts) - sum_list (map (\<lambda>t. \<bar>x - t\<bar>) ts)
           \<le> (y - x) * (real (length (filter (\<lambda>t. t < y) ts))
                          - real (length (filter (\<lambda>t. \<not> t < y) ts)))"
proof (induction ts)
  case Nil
  then show ?case by simp
next
  case (Cons t ts)
  show ?case
  proof (cases "t < y")
    case True
    then have "\<bar>y - t\<bar> - \<bar>x - t\<bar> \<le> y - x" by simp
    with Cons True show ?thesis by (simp add: algebra_simps)
  next
    case False
    with assms have "\<bar>y - t\<bar> - \<bar>x - t\<bar> = - (y - x)" by simp
    with Cons False show ?thesis by (simp add: algebra_simps)
  qed
qed

lemma abs_dev_diff_lower:
  fixes x y :: real
  assumes "x \<le> y"
  shows "(y - x) * (real (length (filter (\<lambda>t. t \<le> x) ts))
                     - real (length (filter (\<lambda>t. \<not> t \<le> x) ts)))
           \<le> sum_list (map (\<lambda>t. \<bar>y - t\<bar>) ts) - sum_list (map (\<lambda>t. \<bar>x - t\<bar>) ts)"
proof (induction ts)
  case Nil
  then show ?case by simp
next
  case (Cons t ts)
  show ?case
  proof (cases "t \<le> x")
    case True
    with assms have "\<bar>y - t\<bar> - \<bar>x - t\<bar> = y - x" by simp
    with Cons True show ?thesis by (simp add: algebra_simps)
  next
    case False
    then have "- (y - x) \<le> \<bar>y - t\<bar> - \<bar>x - t\<bar>" by simp
    with Cons False show ?thesis by (simp add: algebra_simps)
  qed
qed

lemma length_filter_mono:
  assumes "\<And>t. P t \<Longrightarrow> Q t"
  shows "length (filter P ts) \<le> length (filter Q ts)"
  using assms by (induction ts) auto

lemma length_filter_compl:
  "real (length (filter (\<lambda>t. \<not> P t) ts)) = real (length ts) - real (length (filter P ts))"
  using sum_length_filter_compl [of P ts] by simp

text \<open>
  Hence the L1 loss strictly decreases up to a point \<open>m\<close> that has fewer than half of the
  samples below it, and does not decrease from a point that has at most half of the samples
  above it.
\<close>

lemma abs_loss_strict_decreasing:
  fixes x y m :: real
  assumes med: "2 * length (filter (\<lambda>t. t < m) ts) < length ts"
    and "x < y" and "y \<le> m"
  shows "sum_list (map (\<lambda>t. \<bar>y - t\<bar>) ts) < sum_list (map (\<lambda>t. \<bar>x - t\<bar>) ts)"
proof -
  let ?c = "length (filter (\<lambda>t. t < y) ts)"
  have "?c \<le> length (filter (\<lambda>t. t < m) ts)"
    by (rule length_filter_mono) (use assms in simp)
  with med have c: "2 * real ?c < real (length ts)"
    by linarith
  have "sum_list (map (\<lambda>t. \<bar>y - t\<bar>) ts) - sum_list (map (\<lambda>t. \<bar>x - t\<bar>) ts)
          \<le> (y - x) * (real ?c - real (length (filter (\<lambda>t. \<not> t < y) ts)))"
    by (rule abs_dev_diff_upper) (use assms in simp)
  also have "\<dots> = (y - x) * (2 * real ?c - real (length ts))"
    by (simp add: length_filter_compl)
  also have "\<dots> < 0"
    using c \<open>x < y\<close> by (simp add: mult_less_0_iff)
  finally show ?thesis by simp
qed

lemma abs_loss_nondecreasing:
  fixes x y m :: real
  assumes med: "2 * length (filter (\<lambda>t. m < t) ts) \<le> length ts"
    and "m \<le> x" and "x \<le> y"
  shows "sum_list (map (\<lambda>t. \<bar>x - t\<bar>) ts) \<le> sum_list (map (\<lambda>t. \<bar>y - t\<bar>) ts)"
proof -
  let ?d = "length (filter (\<lambda>t. \<not> t \<le> x) ts)"
  have "?d \<le> length (filter (\<lambda>t. m < t) ts)"
    by (rule length_filter_mono) (use assms in simp)
  with med have d: "2 * real ?d \<le> real (length ts)"
    by linarith
  have e: "real (length (filter (\<lambda>t. t \<le> x) ts)) - real ?d = real (length ts) - 2 * real ?d"
    using sum_length_filter_compl [of "\<lambda>t. t \<le> x" ts] by simp
  have "0 \<le> (y - x) * (real (length ts) - 2 * real ?d)"
    using d \<open>x \<le> y\<close> by simp
  also have "\<dots> = (y - x) * (real (length (filter (\<lambda>t. t \<le> x) ts)) - real ?d)"
    by (simp only: e)
  also have "\<dots> \<le> sum_list (map (\<lambda>t. \<bar>y - t\<bar>) ts) - sum_list (map (\<lambda>t. \<bar>x - t\<bar>) ts)"
    by (rule abs_dev_diff_lower) (use assms in simp)
  finally show ?thesis by simp
qed

text \<open>The lower median of the samples is such a point.\<close>

lemma length_filter_sort:
  "length (filter P (sort ts)) = length (filter P ts)"
proof -
  have "mset (filter P (sort ts)) = mset (filter P ts)" by simp
  then show ?thesis by (metis size_mset)
qed

lemma sorted_filter_less_nth:
  fixes xs :: "real list"
  assumes "sorted xs" and "k < length xs"
  shows "length (filter (\<lambda>t. t < xs ! k) xs) \<le> k"
proof -
  have "filter (\<lambda>t. t < xs ! k) (drop k xs) = []"
  proof -
    have "\<not> t < xs ! k" if "t \<in> set (drop k xs)" for t
    proof -
      from that obtain j where "j < length (drop k xs)" and "t = drop k xs ! j"
        by (auto simp: in_set_conv_nth)
      then have "t = xs ! (k + j)" and "k + j < length xs" by simp_all
      then have "xs ! k \<le> t" using assms(1) by (simp add: sorted_nth_mono)
      then show ?thesis by simp
    qed
    then show ?thesis by (simp add: filter_empty_conv)
  qed
  then have "filter (\<lambda>t. t < xs ! k) xs = filter (\<lambda>t. t < xs ! k) (take k xs)"
    by (metis append_Nil2 append_take_drop_id filter_append)
  then have "length (filter (\<lambda>t. t < xs ! k) xs) \<le> length (take k xs)"
    by (metis length_filter_le)
  then show ?thesis by simp
qed

lemma sorted_filter_greater_nth:
  fixes xs :: "real list"
  assumes "sorted xs" and "k < length xs"
  shows "length (filter (\<lambda>t. xs ! k < t) xs) \<le> length xs - Suc k"
proof -
  have "filter (\<lambda>t. xs ! k < t) (take (Suc k) xs) = []"
  proof -
    have "\<not> xs ! k < t" if "t \<in> set (take (Suc k) xs)" for t
    proof -
      from that obtain j where "j < length (take (Suc k) xs)" and "t = take (Suc k) xs ! j"
        by (auto simp: in_set_conv_nth)
      then have "t = xs ! j" and "j \<le> k" by simp_all
      then have "t \<le> xs ! k" using assms by (simp add: sorted_nth_mono)
      then show ?thesis by simp
    qed
    then show ?thesis by (simp add: filter_empty_conv)
  qed
  then have "filter (\<lambda>t. xs ! k < t) xs = filter (\<lambda>t. xs ! k < t) (drop (Suc k) xs)"
    by (metis append_Nil append_take_drop_id filter_append)
  then have "length (filter (\<lambda>t. xs ! k < t) xs) \<le> length (drop (Suc k) xs)"
    by (metis length_filter_le)
  then show ?thesis by simp
qed

lemma lower_median_counts:
  assumes "ts \<noteq> []"
  shows "2 * length (filter (\<lambda>t. t < lower_median ts) ts) < length ts"
    and "2 * length (filter (\<lambda>t. lower_median ts < t) ts) \<le> length ts"
    and "lower_median ts \<in> set ts"
proof -
  let ?xs = "sort ts" and ?k = "(length ts - 1) div 2"
  have k: "?k < length ?xs" using assms by (simp add: length_greater_0_conv [symmetric] del: length_greater_0_conv) 
  have s: "sorted ?xs" by simp
  have "length (filter (\<lambda>t. t < ?xs ! ?k) ?xs) \<le> ?k"
    by (rule sorted_filter_less_nth [OF s k])
  then have "length (filter (\<lambda>t. t < lower_median ts) ts) \<le> ?k"
    by (simp add: lower_median_def length_filter_sort)
  moreover have "0 < length ts" using assms by simp
  ultimately show "2 * length (filter (\<lambda>t. t < lower_median ts) ts) < length ts"
    by linarith
  have "length (filter (\<lambda>t. ?xs ! ?k < t) ?xs) \<le> length ?xs - Suc ?k"
    by (rule sorted_filter_greater_nth [OF s k])
  then have "length (filter (\<lambda>t. lower_median ts < t) ts) \<le> length ts - Suc ?k"
    by (simp add: lower_median_def length_filter_sort)
  then show "2 * length (filter (\<lambda>t. lower_median ts < t) ts) \<le> length ts"
    by linarith
  have "?xs ! ?k \<in> set ?xs" using k by (rule nth_mem)
  then show "lower_median ts \<in> set ts" by (simp add: lower_median_def)
qed

text \<open>
  A grid whose consecutive points are at most \<open>h\<close> apart has two points at most \<open>h\<close> apart
  that enclose any \<open>m\<close> between its first and its last point.
\<close>

lemma grid_bracket:
  fixes grid :: "real list"
  assumes "grid \<noteq> []" and "successively (\<lambda>a b. b - a \<le> h) grid" and "0 \<le> h"
    and "hd grid \<le> m" and "m \<le> last grid"
  shows "\<exists>lo\<in>set grid. \<exists>hi\<in>set grid. lo \<le> m \<and> m \<le> hi \<and> hi - lo \<le> h"
  using assms
proof (induction grid rule: induct_list012)
  case 1
  then show ?case by simp
next
  case (2 a)
  then show ?case by simp
next
  case (3 a b rest)
  show ?case
  proof (cases "m \<le> b")
    case True
    with 3 have "a \<le> m \<and> m \<le> b \<and> b - a \<le> h" by simp
    then show ?thesis by auto
  next
    case False
    have "\<exists>lo\<in>set (b # rest). \<exists>hi\<in>set (b # rest). lo \<le> m \<and> m \<le> hi \<and> hi - lo \<le> h"
    proof (rule "3.IH"(2))
      show "b # rest \<noteq> []" by simp
      show "successively (\<lambda>a b. b - a \<le> h) (b # rest)" using "3.prems" by simp
      show "0 \<le> h" by fact
      show "hd (b # rest) \<le> m" using False by simp
      show "m \<le> last (b # rest)" using "3.prems" by simp
    qed
    then show ?thesis by auto
  qed
qed

lemma lossf_a_Some:
  assumes "theta_pos \<noteq> []"
  shows "lossf_a grid theta_pos
           = map Some (map (\<lambda>i. sum_list (map (\<lambda>t. \<bar>i - t\<bar>) theta_pos) / real (length theta_pos)) grid)"
  using assms by (simp add: lossf_a_def np_mean_def)

lemma lossf_b_Some:
  assumes "theta_pos \<noteq> []"
  shows "lossf_b grid theta_pos
           = map Some (map (\<lambda>i. sum_list (map (\<lambda>t. (i - t)\<^sup>2) theta_pos) / real (length theta_pos)) grid)"
  using assms by (simp add: lossf_b_def np_mean_def)

lemma point_estimate_first_min:
  assumes "grid \<noteq> []"
  shows "\<exists>mi. np_argmin (map Some (map f grid)) = Inr mi \<and> first_min_index (map f grid) mi
              \<and> point_estimate (map Some (map f grid)) grid = Inr (grid ! mi)"
proof -
  from assms have "map f grid \<noteq> []" by simp
  then obtain mi where mi: "np_argmin (map Some (map f grid)) = Inr mi"
      "first_min_index (map f grid) mi"
    using np_argmin_first_min by blast
  then have "mi < length grid" by (simp add: first_min_index_def)
  with mi show ?thesis by (simp add: point_estimate_def)
qed

lemma first_min_index_map:
  assumes "first_min_index (map f grid) mi"
  shows "mi < length grid"
    and "g \<in> set grid \<Longrightarrow> f (grid ! mi) \<le> f g"
    and "j < mi \<Longrightarrow> f (grid ! mi) < f (grid ! j)"
proof -
  show mi: "mi < length grid" using assms by (simp add: first_min_index_def)
  show "f (grid ! mi) \<le> f g" if "g \<in> set grid"
  proof -
    from that obtain j where "j < length grid" "g = grid ! j" by (auto simp: in_set_conv_nth)
    with assms mi show ?thesis by (auto simp: first_min_index_def)
  qed
  show "f (grid ! mi) < f (grid ! j)" if "j < mi"
    using assms that mi by (auto simp: first_min_index_def)
qed

lemma l2_nearest:
  fixes grid :: "real list"
  assumes ne: "theta_pos \<noteq> []"
    and fm: "first_min_index
               (map (\<lambda>i. sum_list (map (\<lambda>t. (i - t)\<^sup>2) theta_pos) / real (length theta_pos)) grid) mi"
    and g: "g \<in> set grid"
  shows "\<bar>grid ! mi - sum_list theta_pos / real (length theta_pos)\<bar>
           \<le> \<bar>g - sum_list theta_pos / real (length theta_pos)\<bar>"
proof -
  let ?f = "\<lambda>i. sum_list (map (\<lambda>t. (i - t)\<^sup>2) theta_pos) / real (length theta_pos)"
  have "?f (grid ! mi) \<le> ?f g"
    using first_min_index_map(2) [OF fm g] .
  then have "(grid ! mi - sum_list theta_pos / real (length theta_pos))\<^sup>2
               \<le> (g - sum_list theta_pos / real (length theta_pos))\<^sup>2"
    unfolding mean_sq_dev [OF ne] by simp
  then show ?thesis by (simp add: abs_le_square_iff)
qed

lemma l2_within_half_resolution:
  fixes grid :: "real list"
  assumes ne: "theta_pos \<noteq> []"
    and fm: "first_min_index
               (map (\<lambda>i. sum_list (map (\<lambda>t. (i - t)\<^sup>2) theta_pos) / real (length theta_pos)) grid) mi"
    and "grid \<noteq> []" and "successively (\<lambda>a b. b - a \<le> h) grid" and "0 \<le> h"
    and "hd grid \<le> sum_list theta_pos / real (length theta_pos)"
    and "sum_list theta_pos / real (length theta_pos) \<le> last grid"
  shows "\<bar>grid ! mi - sum_list theta_pos / real (length theta_pos)\<bar> \<le> h / 2"
proof -
  let ?m = "sum_list theta_pos / real (length theta_pos)"
  obtain lo hi where lh: "lo \<in> set grid" "hi \<in> set grid" "lo \<le> ?m" "?m \<le> hi" "hi - lo \<le> h"
    using grid_bracket [OF assms(3-7)] by blast
  have "\<bar>grid ! mi - ?m\<bar> \<le> \<bar>lo - ?m\<bar>" by (rule l2_nearest [OF ne fm lh(1)])
  moreover have "\<bar>grid ! mi - ?m\<bar> \<le> \<bar>hi - ?m\<bar>" by (rule l2_nearest [OF ne fm lh(2)])
  ultimately show ?thesis using lh(3-5) by linarith
qed

lemma l1_within_resolution:
  fixes grid :: "real list"
  assumes ne: "theta_pos \<noteq> []"
    and fm: "first_min_index
               (map (\<lambda>i. sum_list (map (\<lambda>t. \<bar>i - t\<bar>) theta_pos) / real (length theta_pos)) grid) mi"
    and "grid \<noteq> []" and "successively (\<lambda>a b. b - a \<le> h) grid" and "0 \<le> h"
    and "hd grid \<le> lower_median theta_pos"
    and "lower_median theta_pos \<le> last grid"
    and srt: "sorted grid"
  shows "\<bar>grid ! mi - lower_median theta_pos\<bar> \<le> h"
proof -
  let ?m = "lower_median theta_pos"
  let ?L = "\<lambda>i. sum_list (map (\<lambda>t. \<bar>i - t\<bar>) theta_pos)"
  let ?f = "\<lambda>i. ?L i / real (length theta_pos)"
  have n: "0 < real (length theta_pos)" using ne by simp
  obtain lo hi where lh: "lo \<in> set grid" "hi \<in> set grid" "lo \<le> ?m" "?m \<le> hi" "hi - lo \<le> h"
    using grid_bracket [OF assms(3-7)] by blast
  have mi: "mi < length grid" using first_min_index_map(1) [OF fm] .
  have lo_le: "lo \<le> grid ! mi"
  proof (rule ccontr)
    assume "\<not> lo \<le> grid ! mi"
    then have "grid ! mi < lo" by simp
    then have "?L lo < ?L (grid ! mi)"
      using lower_median_counts(1) [OF ne] lh(3) by (intro abs_loss_strict_decreasing [where m = ?m])
    then have "?f lo < ?f (grid ! mi)" using n by (simp add: divide_strict_right_mono)
    moreover have "?f (grid ! mi) \<le> ?f lo" using first_min_index_map(2) [OF fm lh(1)] .
    ultimately show False by simp
  qed
  have le_hi: "grid ! mi \<le> hi"
  proof (rule ccontr)
    assume "\<not> grid ! mi \<le> hi"
    then have lt: "hi < grid ! mi" by simp
    then have "?L hi \<le> ?L (grid ! mi)"
      using lower_median_counts(2) [OF ne] lh(4)
      by (intro abs_loss_nondecreasing [where m = ?m]) simp_all
    then have a: "?f hi \<le> ?f (grid ! mi)" using n by (simp add: divide_right_mono)
    have b: "?f (grid ! mi) \<le> ?f hi" using first_min_index_map(2) [OF fm lh(2)] .
    from b a have eq: "?f (grid ! mi) = ?f hi" by (rule order_antisym)
    obtain jh where jh: "jh < length grid" "hi = grid ! jh"
      using lh(2) by (auto simp: in_set_conv_nth)
    have "jh < mi"
    proof (rule ccontr)
      assume "\<not> jh < mi"
      then have "mi \<le> jh" by simp
      then have "grid ! mi \<le> grid ! jh" using srt jh(1) by (simp add: sorted_nth_mono)
      with lt jh(2) show False by simp
    qed
    then have "?f (grid ! mi) < ?f (grid ! jh)" by (rule first_min_index_map(3) [OF fm])
    then have "?f (grid ! mi) < ?f hi" by (simp only: jh(2))
    then show False by (simp only: eq less_irrefl)
  qed
  show ?thesis using lo_le le_hi lh(3-5) by linarith
qed

text \<open>
  The two point estimates: where they are found, and how far they are from the mean and
  the lower median of the samples.
\<close>

lemma point_estimate_bounds:
  fixes grid theta_pos :: "real list"
  assumes "np_mean theta_pos = Some mean" and "grid \<noteq> []"
  shows "\<exists>ma mb.
           np_argmin (lossf_a grid theta_pos) = Inr ma
           \<and> np_argmin (lossf_b grid theta_pos) = Inr mb
           \<and> first_min_index (map the (lossf_a grid theta_pos)) ma
           \<and> first_min_index (map the (lossf_b grid theta_pos)) mb
           \<and> point_estimate (lossf_a grid theta_pos) grid = Inr (grid ! ma)
           \<and> point_estimate (lossf_b grid theta_pos) grid = Inr (grid ! mb)
           \<and> (successively (\<lambda>a b. b - a \<le> h) grid \<and> 0 \<le> h
                \<and> hd grid \<le> mean \<and> mean \<le> last grid
               \<longrightarrow> \<bar>grid ! mb - mean\<bar> \<le> h / 2)
           \<and> (sorted grid \<and> successively (\<lambda>a b. b - a \<le> h) grid \<and> 0 \<le> h
                \<and> hd grid \<le> lower_median theta_pos \<and> lower_median theta_pos \<le> last grid
               \<longrightarrow> \<bar>grid ! ma - lower_median theta_pos\<bar> \<le> h)"
proof -
  from assms(1) have ne: "theta_pos \<noteq> []"
    and mean: "mean = sum_list theta_pos / real (length theta_pos)"
    by (auto simp: np_mean_def split: if_splits)
  let ?fa = "\<lambda>i. sum_list (map (\<lambda>t. \<bar>i - t\<bar>) theta_pos) / real (length theta_pos)"
  let ?fb = "\<lambda>i. sum_list (map (\<lambda>t. (i - t)\<^sup>2) theta_pos) / real (length theta_pos)"
  have la: "lossf_a grid theta_pos = map Some (map ?fa grid)" by (rule lossf_a_Some [OF ne])
  have lb: "lossf_b grid theta_pos = map Some (map ?fb grid)" by (rule lossf_b_Some [OF ne])
  have ta: "map the (lossf_a grid theta_pos) = map ?fa grid" by (simp add: la comp_def)
  have tb: "map the (lossf_b grid theta_pos) = map ?fb grid" by (simp add: lb comp_def)
  obtain ma where ma: "np_argmin (map Some (map ?fa grid)) = Inr ma"
      "first_min_index (map ?fa grid) ma"
      "point_estimate (map Some (map ?fa grid)) grid = Inr (grid ! ma)"
    using point_estimate_first_min [OF assms(2), of ?fa] by blast
  obtain mb where mb: "np_argmin (map Some (map ?fb grid)) = Inr mb"
      "first_min_index (map ?fb grid) mb"
      "point_estimate (map Some (map ?fb grid)) grid = Inr (grid ! mb)"
    using point_estimate_first_min [OF assms(2), of ?fb] by blast
  have l2: "\<bar>grid ! mb - mean\<bar> \<le> h / 2"
    if "successively (\<lambda>a b. b - a \<le> h) grid" and "0 \<le> h"
      and "hd grid \<le> mean" and "mean \<le> last grid"
    unfolding mean
    by (rule l2_within_half_resolution [OF ne mb(2) assms(2) that(1,2)])
       (use that(3,4) mean in simp_all)
  have l1: "\<bar>grid ! ma - lower_median theta_pos\<bar> \<le> h"
    if "sorted grid" and "successively (\<lambda>a b. b - a \<le> h) grid" and "0 \<le> h"
      and "hd grid \<le> lower_median theta_pos" and "lower_median theta_pos \<le> last grid"
    by (rule l1_within_resolution [OF ne ma(2) assms(2) that(2,3,4,5,1)])
  show ?thesis
    unfolding ta tb unfolding la lb using ma mb l1 l2 by blast
qed




text \<open>
  The notebook's grid is \<open>np.linspace(0, 1, 200)\<close> and its samples are draws from a Beta
  distribution, which lie in \<open>[0, 1]\<close>: the grid is sorted, runs from 0 to 1 in steps of
  \<open>1/(num - 1)\<close>, and encloses the mean and the median of the samples.
\<close>

lemma np_linspace_grid:
  assumes "2 \<le> num" and "start \<le> stop"
  shows "np_linspace start stop num \<noteq> []"
    and "hd (np_linspace start stop num) = start"
    and "last (np_linspace start stop num) = stop"
    and "sorted (np_linspace start stop num)"
    and "successively (\<lambda>a b. b - a \<le> (stop - start) / real (num - 1)) (np_linspace start stop num)"
proof -
  define step where "step = (stop - start) / real (num - 1)"
  have grid: "np_linspace start stop num = map (\<lambda>i. start + real i * step) [0..<num]"
    by (simp add: np_linspace_def step_def)
  have num: "0 < num" "real (num - 1) \<noteq> 0" using assms(1) by simp_all
  have step: "0 \<le> step" using assms by (simp add: step_def)
  have full: "real (num - 1) * step = stop - start"
    using num(2) by (simp add: step_def)
  show "np_linspace start stop num \<noteq> []" using num by (simp add: grid)
  show "hd (np_linspace start stop num) = start"
    using num by (simp add: grid hd_map)
  have "last (np_linspace start stop num) = start + real (num - 1) * step"
    using num by (simp add: grid last_map)
  also have "\<dots> = stop" unfolding full by simp
  finally show "last (np_linspace start stop num) = stop" .
  show "sorted (np_linspace start stop num)"
    unfolding sorted_iff_nth_mono
  proof (intro allI impI)
    fix i j
    assume "i \<le> j" and j: "j < length (np_linspace start stop num)"
    then have "real i * step \<le> real j * step"
      using step by (intro mult_right_mono) simp_all
    with \<open>i \<le> j\<close> j show "np_linspace start stop num ! i \<le> np_linspace start stop num ! j"
      by (simp add: grid)
  qed
  have "successively (\<lambda>a b. b - a \<le> step) (np_linspace start stop num)"
    unfolding successively_conv_nth grid
    by (auto simp: algebra_simps)
  then show "successively (\<lambda>a b. b - a \<le> (stop - start) / real (num - 1))
               (np_linspace start stop num)"
    by (simp only: step_def)
qed

lemma mean_in_unit_interval:
  fixes ts :: "real list"
  assumes "ts \<noteq> []" and "\<And>t. t \<in> set ts \<Longrightarrow> 0 \<le> t \<and> t \<le> 1"
  shows "0 \<le> sum_list ts / real (length ts)" and "sum_list ts / real (length ts) \<le> 1"
proof -
  have "0 \<le> sum_list ts \<and> sum_list ts \<le> real (length ts)"
    using assms(2) by (induction ts) (simp, force)
  then show "0 \<le> sum_list ts / real (length ts)" and "sum_list ts / real (length ts) \<le> 1"
    using assms(1) by (simp_all add: divide_le_eq)
qed

lemma notebook_point_estimates:
  fixes samples :: "real list"
  assumes "samples \<noteq> []" and "\<And>t. t \<in> set samples \<Longrightarrow> 0 \<le> t \<and> t \<le> 1" and "2 \<le> num"
  shows "\<exists>est_a est_b.
           point_estimate (lossf_a (np_linspace 0 1 num) samples) (np_linspace 0 1 num) = Inr est_a
           \<and> point_estimate (lossf_b (np_linspace 0 1 num) samples) (np_linspace 0 1 num) = Inr est_b
           \<and> \<bar>est_b - sum_list samples / real (length samples)\<bar> \<le> 1 / (2 * real (num - 1))
           \<and> \<bar>est_a - lower_median samples\<bar> \<le> 1 / real (num - 1)"
proof -
  let ?grid = "np_linspace 0 1 num"
  let ?mean = "sum_list samples / real (length samples)"
  let ?h = "(1 - 0) / real (num - 1)"
  have mean: "np_mean samples = Some ?mean"
    using assms(1) by (simp add: np_mean_def)
  have g: "?grid \<noteq> []" "hd ?grid = 0" "last ?grid = 1" "sorted ?grid"
      "successively (\<lambda>a b. b - a \<le> ?h) ?grid"
    using np_linspace_grid [of num 0 1] assms(3) by simp_all
  have h: "0 \<le> ?h" by simp
  have med: "0 \<le> lower_median samples" "lower_median samples \<le> 1"
    using lower_median_counts(3) [OF assms(1)] assms(2) by blast+
  have mn: "0 \<le> ?mean" "?mean \<le> 1"
    by (rule mean_in_unit_interval [OF assms(1,2)]; assumption)+
  from point_estimate_bounds [OF mean g(1), of ?h]
  obtain ma mb where est:
    "point_estimate (lossf_a ?grid samples) ?grid = Inr (?grid ! ma)"
    "point_estimate (lossf_b ?grid samples) ?grid = Inr (?grid ! mb)"
    and l2: "successively (\<lambda>a b. b - a \<le> ?h) ?grid \<and> 0 \<le> ?h
              \<and> hd ?grid \<le> ?mean \<and> ?mean \<le> last ?grid
             \<longrightarrow> \<bar>?grid ! mb - ?mean\<bar> \<le> ?h / 2"
    and l1: "sorted ?grid \<and> successively (\<lambda>a b. b - a \<le> ?h) ?grid \<and> 0 \<le> ?h
              \<and> hd ?grid \<le> lower_median samples \<and> lower_median samples \<le> last ?grid
             \<longrightarrow> \<bar>?grid ! ma - lower_median samples\<bar> \<le> ?h"
    by blast
  have "\<bar>?grid ! mb - ?mean\<bar> \<le> ?h / 2"
    using l2 g(5) h mn unfolding g(2,3) by blast
  moreover have "\<bar>?grid ! ma - lower_median samples\<bar> \<le> ?h"
    using l1 g(4,5) h med unfolding g(2,3) by blast
  ultimately show ?thesis
    using est by simp
qed

end
